theory Spec2Isabelle
  imports Complex_Main "HOL-Library.AList" "HOL-Library.Sublist" "HOL-Library.Log_Nat"
    "HOL-Library.Product_Lexorder"
begin

section \<open>Numbers\<close>

text \<open>
  The analysers compute on pandas/numpy \<^verbatim>\<open>float64\<close> values. Finite values are
  idealised here as exact rationals (no binary rounding error, no overflow); the three
  special values a division can produce are kept, because numpy does not raise on a
  division by zero: it returns an infinity or NaN, which then flows through the rest of
  the arithmetic. Signed zeros are not distinguished; a zero divisor is taken as
  \<^verbatim>\<open>+0.0\<close>.
\<close>

datatype fl = Fin rat | PInf | NInf | NaN

fun fl_neg :: "fl \<Rightarrow> fl" where
  "fl_neg (Fin x) = Fin (- x)"
| "fl_neg PInf = NInf"
| "fl_neg NInf = PInf"
| "fl_neg NaN = NaN"

fun fl_add :: "fl \<Rightarrow> fl \<Rightarrow> fl" where
  "fl_add (Fin a) (Fin b) = Fin (a + b)"
| "fl_add NaN _ = NaN"
| "fl_add _ NaN = NaN"
| "fl_add PInf NInf = NaN"
| "fl_add NInf PInf = NaN"
| "fl_add PInf _ = PInf"
| "fl_add _ PInf = PInf"
| "fl_add NInf _ = NInf"
| "fl_add _ NInf = NInf"

definition fl_sub :: "fl \<Rightarrow> fl \<Rightarrow> fl" where
  "fl_sub a b = fl_add a (fl_neg b)"

fun fl_mul :: "fl \<Rightarrow> fl \<Rightarrow> fl" where
  "fl_mul (Fin a) (Fin b) = Fin (a * b)"
| "fl_mul NaN _ = NaN"
| "fl_mul _ NaN = NaN"
| "fl_mul PInf (Fin b) = (if b = 0 then NaN else if 0 < b then PInf else NInf)"
| "fl_mul NInf (Fin b) = (if b = 0 then NaN else if 0 < b then NInf else PInf)"
| "fl_mul (Fin a) PInf = (if a = 0 then NaN else if 0 < a then PInf else NInf)"
| "fl_mul (Fin a) NInf = (if a = 0 then NaN else if 0 < a then NInf else PInf)"
| "fl_mul PInf PInf = PInf"
| "fl_mul NInf NInf = PInf"
| "fl_mul PInf NInf = NInf"
| "fl_mul NInf PInf = NInf"

fun fl_div :: "fl \<Rightarrow> fl \<Rightarrow> fl" where
  "fl_div (Fin a) (Fin b) =
     (if b \<noteq> 0 then Fin (a / b)
      else if a = 0 then NaN else if 0 < a then PInf else NInf)"
| "fl_div NaN _ = NaN"
| "fl_div _ NaN = NaN"
| "fl_div (Fin a) PInf = Fin 0"
| "fl_div (Fin a) NInf = Fin 0"
| "fl_div PInf (Fin b) = (if 0 \<le> b then PInf else NInf)"
| "fl_div NInf (Fin b) = (if 0 \<le> b then NInf else PInf)"
| "fl_div PInf PInf = NaN"
| "fl_div PInf NInf = NaN"
| "fl_div NInf PInf = NaN"
| "fl_div NInf NInf = NaN"

text \<open>Python's \<^verbatim>\<open>round\<close>: to the nearest, a tie to the even neighbour.\<close>

definition round_half_even :: "rat \<Rightarrow> int" where
  "round_half_even y =
     (let f = \<lfloor>y\<rfloor>; d = y - of_int f
      in if d < 1 / 2 then f
         else if 1 / 2 < d then f + 1
         else if even f then f else f + 1)"

definition py_round :: "rat \<Rightarrow> nat \<Rightarrow> rat" where
  "py_round x nd = of_int (round_half_even (x * 10 ^ nd)) / 10 ^ nd"

fun fl_round :: "fl \<Rightarrow> nat \<Rightarrow> fl" where
  "fl_round (Fin x) nd = Fin (py_round x nd)"
| "fl_round PInf nd = PInf"
| "fl_round NInf nd = NInf"
| "fl_round NaN nd = NaN"

section \<open>Series and rolling windows\<close>

text \<open>
  A data frame is read by the indicators only through its \<^verbatim>\<open>Close\<close> column: the list
  of closes, oldest first. \<^verbatim>\<open>s.rolling(window=w).mean().iloc[-1]\<close> is the mean of
  the last \<open>w\<close> entries, and NaN when the series holds fewer than \<open>w\<close> of them.
\<close>

definition rolling_mean_last :: "nat \<Rightarrow> rat list \<Rightarrow> fl" where
  "rolling_mean_last w xs =
     (if w = 0 \<or> length xs < w then NaN
      else Fin (sum_list (drop (length xs - w) xs) / of_nat w))"

section \<open>Moving averages\<close>

text \<open>
  The keys \<^verbatim>\<open>f'{period}d_MA'\<close> and \<^verbatim>\<open>f'{period}d_MA_diff_%'\<close> of the result
  dictionary. A dictionary value is \<open>None\<close> for Python's \<^verbatim>\<open>None\<close>.
\<close>

datatype ma_key = MA nat | MA_diff nat

type_synonym averages = "ma_key \<rightharpoonup> fl option"



text \<open>\<^verbatim>\<open>AdvancedStockAnalyzer.calculate_moving_averages\<close> (advanced\_analyzer.py).\<close>

definition ma_diff :: "rat list \<Rightarrow> nat \<Rightarrow> fl" where
  "ma_diff closes period =
     (let ma = rolling_mean_last period closes;
          current_price = Fin (last closes)
      in fl_round (fl_mul (fl_div (fl_sub current_price ma) ma) (Fin 100)) 2)"

definition adv_ma_step :: "rat list \<Rightarrow> nat \<Rightarrow> averages \<Rightarrow> averages" where
  "adv_ma_step closes period av =
     (if period \<le> length closes
      then (av(MA period \<mapsto> Some (fl_round (rolling_mean_last period closes) 2)))
             (MA_diff period \<mapsto> Some (ma_diff closes period))
      else (av(MA period \<mapsto> None))(MA_diff period \<mapsto> None))"

definition adv_calculate_moving_averages :: "rat list \<Rightarrow> nat list \<Rightarrow> averages" where
  "adv_calculate_moving_averages closes periods =
     (if closes = [] then Map.empty else fold (adv_ma_step closes) periods Map.empty)"

section \<open>Relative strength index\<close>





section \<open>Price changes\<close>

text \<open>
  \<^verbatim>\<open>round(((current_price - old_price) / old_price) * 100, 2)\<close>, where
  \<^verbatim>\<open>current_price\<close> is the latest close already rounded to 2 places (taken from
  \<^verbatim>\<open>current_stats\<close>) and \<^verbatim>\<open>old_price = df['Close'].iloc[-days]\<close>; the index
  \<open>-days\<close> counts from the end, \<open>-1\<close> being the last row.
\<close>

definition pct_change :: "rat list \<Rightarrow> nat \<Rightarrow> fl" where
  "pct_change closes days =
     (let old_price = Fin (closes ! (length closes - days));
          current_price = Fin (py_round (last closes) 2)
      in fl_round (fl_mul (fl_div (fl_sub current_price old_price) old_price) (Fin 100)) 2)"

text \<open>
  The loop of \<^verbatim>\<open>analyze_stock_comprehensive\<close> over \<^verbatim>\<open>[1, 5, 15, 30, 90]\<close>; the key
  \<^verbatim>\<open>f'{days}d_change_%'\<close> is represented by \<open>days\<close>. The loop runs only for a
  non-empty frame; otherwise the record has no \<^verbatim>\<open>price_changes\<close> at all.
\<close>

definition price_change_step :: "rat list \<Rightarrow> nat \<Rightarrow> (nat \<rightharpoonup> fl) \<Rightarrow> (nat \<rightharpoonup> fl)" where
  "price_change_step closes days pc =
     (if days \<le> length closes then pc(days \<mapsto> pct_change closes days) else pc)"

definition horizons :: "nat list" where
  "horizons = [1, 5, 15, 30, 90]"

definition adv_price_changes :: "rat list \<Rightarrow> (nat \<rightharpoonup> fl) option" where
  "adv_price_changes closes =
     (if closes = [] then None
      else Some (fold (price_change_step closes) horizons Map.empty))"

text \<open>
  \<^verbatim>\<open>StockAnalyzer.analyze_stock\<close>: the values stored under \<^verbatim>\<open>'15_day_change_%'\<close>
  and \<^verbatim>\<open>'30_day_change_%'\<close> (\<open>None\<close> for Python's \<^verbatim>\<open>None\<close>), for a non-empty frame.
\<close>

definition change_15d :: "rat list \<Rightarrow> fl option" where
  "change_15d closes = (if 15 \<le> length closes then Some (pct_change closes 15) else None)"

definition change_30d :: "rat list \<Rightarrow> fl option" where
  "change_30d closes = (if 30 \<le> length closes then Some (pct_change closes 30) else None)"

section \<open>Double precision\<close>

text \<open>
  The comparator computes on Python floats. Each of its additions, multiplications and
  divisions yields the double nearest to the exact result, a tie going to the even
  significand; \<open>f64\<close> is that rounding on the rationals. The exponent range is taken as
  unbounded (no overflow, no subnormal numbers). A positive number is brought into
  \<open>[2^52, 2^53)\<close> by halving and doubling, the scale being kept beside it; the search
  starts from a power of two read off the bit lengths, which only shortens it.
\<close>

function scale_down :: "rat \<Rightarrow> rat \<Rightarrow> rat \<times> rat" where
  "scale_down x s = (if 9007199254740992 \<le> x then scale_down (x / 2) (s * 2) else (x, s))"
  by pat_completeness auto
termination
proof (relation "measure (\<lambda>(x, s). nat \<lfloor>x\<rfloor>)")
  show "wf (measure (\<lambda>(x, s). nat \<lfloor>x :: rat\<rfloor>))" by simp
next
  fix x s :: rat
  assume big: "9007199254740992 \<le> x"
  then have two: "2 \<le> x" by simp
  then have "\<lfloor>x / 2\<rfloor> < \<lfloor>x\<rfloor>" by linarith
  moreover from two have "0 < \<lfloor>x\<rfloor>" by linarith
  ultimately show "((x / 2, s * 2), (x, s)) \<in> measure (\<lambda>(x, s). nat \<lfloor>x\<rfloor>)" by simp
qed

function scale_up :: "rat \<Rightarrow> rat \<Rightarrow> rat \<times> rat" where
  "scale_up x s = (if 0 < x \<and> x < 4503599627370496 then scale_up (x * 2) (s / 2) else (x, s))"
  by pat_completeness auto
termination
proof (relation "measure (\<lambda>(x, s). nat \<lceil>4503599627370496 / x\<rceil>)")
  show "wf (measure (\<lambda>(x, s). nat \<lceil>4503599627370496 / (x::rat)\<rceil>))" by simp
next
  fix x s :: rat
  assume a: "0 < x \<and> x < 4503599627370496"
  define c where "c = 4503599627370496 / x"
  from a have "1 < c" by (simp add: c_def)
  then have "2 \<le> \<lceil>c\<rceil>" by linarith
  moreover have "c / 2 \<le> of_int \<lceil>c\<rceil> / 2" by simp
  ultimately have "\<lceil>c / 2\<rceil> < \<lceil>c\<rceil>" by linarith
  moreover from \<open>1 < c\<close> have "0 < \<lceil>c\<rceil>" by linarith
  ultimately have "nat \<lceil>c / 2\<rceil> < nat \<lceil>c\<rceil>" by simp
  moreover have "c / 2 = 4503599627370496 / (x * 2)" by (simp add: c_def)
  ultimately have "nat \<lceil>4503599627370496 / (x * 2)\<rceil> < nat \<lceil>4503599627370496 / x\<rceil>"
    by (simp only: c_def)
  then show "((x * 2, s / 2), (x, s)) \<in> measure (\<lambda>(x, s). nat \<lceil>4503599627370496 / x\<rceil>)"
    by (simp only: in_measure prod.case)
qed

definition pow2 :: "int \<Rightarrow> rat" where
  "pow2 k = (if 0 \<le> k then 2 ^ nat k else 1 / 2 ^ nat (- k))"

definition binade :: "rat \<Rightarrow> rat" where
  "binade x = pow2 (bitlen \<lfloor>x\<rfloor> - bitlen \<lfloor>1 / x\<rfloor> - 53)"

definition f64 :: "rat \<Rightarrow> rat" where
  "f64 x =
     (if x = 0 then 0
      else case scale_down (\<bar>x\<bar> / binade \<bar>x\<bar>) (binade \<bar>x\<bar>) of (y, s) \<Rightarrow>
           (case scale_up y s of (m, t) \<Rightarrow> sgn x * of_int (round_half_even m) * t))"

fun fl_f64 :: "fl \<Rightarrow> fl" where
  "fl_f64 (Fin x) = Fin (f64 x)"
| "fl_f64 PInf = PInf"
| "fl_f64 NInf = NInf"
| "fl_f64 NaN = NaN"

definition f_add :: "fl \<Rightarrow> fl \<Rightarrow> fl" where
  "f_add a b = fl_f64 (fl_add a b)"

definition f_mul :: "fl \<Rightarrow> fl \<Rightarrow> fl" where
  "f_mul a b = fl_f64 (fl_mul a b)"

definition f_div :: "fl \<Rightarrow> fl \<Rightarrow> fl" where
  "f_div a b = fl_f64 (fl_div a b)"

text \<open>The comparison \<^verbatim>\<open><\<close> on floats: false whenever an operand is NaN.\<close>

fun fl_lt :: "fl \<Rightarrow> fl \<Rightarrow> bool" where
  "fl_lt NaN _ = False"
| "fl_lt _ NaN = False"
| "fl_lt (Fin a) (Fin b) = (a < b)"
| "fl_lt (Fin a) PInf = True"
| "fl_lt (Fin a) NInf = False"
| "fl_lt PInf _ = False"
| "fl_lt NInf NInf = False"
| "fl_lt NInf _ = True"

definition fl_le :: "fl \<Rightarrow> fl \<Rightarrow> bool" where
  "fl_le a b = (a \<noteq> NaN \<and> b \<noteq> NaN \<and> \<not> fl_lt b a)"

section \<open>Comparison and ranking\<close>

text \<open>
  \<^verbatim>\<open>StockComparator\<close> (compare\_stocks.py) works on the dictionary loaded from the
  JSON file the analyser wrote: symbol to record. A dictionary that is iterated is an
  association list in insertion order whose keys are distinct; \<open>map_of\<close> is the lookup.
  A record is read through three of its keys, each of which may be missing (an error
  marker has none of them): \<^verbatim>\<open>current_stats\<close>, of which only
  \<^verbatim>\<open>current_price\<close> is read, \<^verbatim>\<open>moving_averages\<close> and \<^verbatim>\<open>price_changes\<close>.
  A number of the file is a float (the analyser writes rounded floats), which
  \<^verbatim>\<open>json.load\<close> also reads from the literals \<^verbatim>\<open>NaN\<close> and \<^verbatim>\<open>Infinity\<close> that
  \<^verbatim>\<open>json.dump\<close> writes; \<^verbatim>\<open>null\<close> is \<open>None\<close>. A finite float is represented by
  the rational it denotes.
\<close>

record stock =
  current_stats :: "fl option"
  moving_averages :: "(string \<times> fl option) list option"
  price_changes :: "(string \<times> fl option) list option"

type_synonym analysis_data = "(string \<times> stock) list"

subsection \<open>Sorting by a float key, largest first\<close>

text \<open>
  \<^verbatim>\<open>sorted(xs, key=key, reverse=True)\<close> and \<^verbatim>\<open>xs.sort(key=key, reverse=True)\<close>.
  CPython reverses the list, sorts it stably in ascending order of the key with
  \<^verbatim>\<open><\<close> as the only comparison, and reverses the result. When no key is NaN the
  keys are totally ordered and the result is the stable sort: equal keys keep their
  original order. When a key is NaN, what comes out depends on the comparisons the
  interpreter happens to make, except in one case that every version treats alike: if no
  element is \<^verbatim>\<open><\<close> its successor, the reversed list is a single run and the list is
  returned as it is. Otherwise the model gives the list as \<open>Unspecified\<close>: some
  rearrangement of it is returned.
\<close>

datatype 'a outcome = Returns "'a list" | Unspecified "'a list"

fun items :: "'a outcome \<Rightarrow> 'a list" where
  "items (Returns xs) = xs"
| "items (Unspecified xs) = xs"

fun rank :: "fl \<Rightarrow> int \<times> rat" where
  "rank NInf = (- 1, 0)"
| "rank (Fin x) = (0, x)"
| "rank PInf = (1, 0)"
| "rank NaN = (2, 0)"

fun ascends :: "fl list \<Rightarrow> bool" where
  "ascends (a # b # xs) = (fl_lt a b \<or> ascends (b # xs))"
| "ascends _ = False"

definition py_sorted_reverse :: "('a \<Rightarrow> fl) \<Rightarrow> 'a list \<Rightarrow> 'a outcome" where
  "py_sorted_reverse key xs =
     (if list_all (\<lambda>x. key x \<noteq> NaN) xs
      then Returns (rev (sort_key (\<lambda>x. rank (key x)) (rev xs)))
      else if \<not> ascends (map key xs) then Returns xs
      else Unspecified xs)"

subsection \<open>\<^verbatim>\<open>get_best_performers\<close>\<close>

definition performances_step ::
  "string \<Rightarrow> string \<times> stock \<Rightarrow> (string \<times> fl) list \<Rightarrow> (string \<times> fl) list" where
  "performances_step period item performances =
     (case item of (symbol, d) \<Rightarrow>
        (case price_changes d of
           None \<Rightarrow> performances
         | Some pc \<Rightarrow>
            (case map_of pc period of
               None \<Rightarrow> performances
             | Some None \<Rightarrow> performances
             | Some (Some change) \<Rightarrow> performances @ [(symbol, change)])))"

definition get_best_performers :: "analysis_data \<Rightarrow> string \<Rightarrow> (string \<times> fl) outcome" where
  "get_best_performers data period =
     py_sorted_reverse snd (fold (performances_step period) data [])"

text \<open>
  The report's best and weakest performer: \<^verbatim>\<open>performers[0]\<close> and
  \<^verbatim>\<open>performers[-1]\<close>, printed only \<^verbatim>\<open>if performers\<close>.
\<close>

definition report_best :: "(string \<times> fl) list \<Rightarrow> (string \<times> fl) option" where
  "report_best performers = (if performers \<noteq> [] then Some (hd performers) else None)"

definition report_worst :: "(string \<times> fl) list \<Rightarrow> (string \<times> fl) option" where
  "report_worst performers = (if performers \<noteq> [] then Some (last performers) else None)"

subsection \<open>\<^verbatim>\<open>analyze_trend_strength\<close>\<close>

text \<open>\<^verbatim>\<open>sub in s\<close> on strings.\<close>

fun contains :: "string \<Rightarrow> string \<Rightarrow> bool" where
  "contains sub [] = (sub = [])"
| "contains sub (c # cs) = (prefix sub (c # cs) \<or> contains sub cs)"

text \<open>
  The test \<^verbatim>\<open>if ma_value and 'd_MA' in ma_name\<close>: a value is false when it is
  \<^verbatim>\<open>None\<close> and also when it is the number 0; NaN and the infinities are true.
\<close>

definition above_below_step ::
  "fl \<Rightarrow> string \<times> fl option \<Rightarrow> (string \<times> bool) list \<Rightarrow> (string \<times> bool) list" where
  "above_below_step price item above_below =
     (case item of (ma_name, ma_value) \<Rightarrow>
        (case ma_value of
           None \<Rightarrow> above_below
         | Some v \<Rightarrow>
            if v \<noteq> Fin 0 \<and> contains ''d_MA'' ma_name
            then AList.update ma_name (fl_lt v price) above_below
            else above_below))"

record trend_result =
  trend :: string
  strength_score :: rat
  above_mas :: nat
  total_mas :: nat

definition trend_label :: "rat \<Rightarrow> string" where
  "trend_label s =
     (if 80 \<le> s then ''Strong Bullish''
      else if 60 \<le> s then ''Moderately Bullish''
      else if 40 \<le> s then ''Neutral''
      else if 20 \<le> s then ''Moderately Bearish''
      else ''Strong Bearish'')"

text \<open>
  \<^verbatim>\<open>(above_count / total_count * 100) if total_count > 0 else 0\<close>: a float
  division followed by a float multiplication.
\<close>

definition trend_strength :: "nat \<Rightarrow> nat \<Rightarrow> rat" where
  "trend_strength above_count total_count =
     (if 0 < total_count then f64 (f64 (of_nat above_count / of_nat total_count) * 100) else 0)"

definition trend_of :: "fl \<Rightarrow> (string \<times> fl option) list \<Rightarrow> trend_result" where
  "trend_of price ma =
     (let above_below = fold (above_below_step price) ma [];
          above_count = length (filter (\<lambda>v. v) (map snd above_below));
          total_count = length above_below;
          s = trend_strength above_count total_count
      in \<lparr>trend = trend_label s,
          strength_score = py_round s 1,
          above_mas = above_count,
          total_mas = total_count\<rparr>)"

text \<open>The result \<open>None\<close> is the empty dictionary of the two early returns.\<close>

definition analyze_trend_strength :: "analysis_data \<Rightarrow> string \<Rightarrow> trend_result option" where
  "analyze_trend_strength data symbol =
     (case map_of data symbol of
        None \<Rightarrow> None
      | Some stock \<Rightarrow>
         (case current_stats stock of
            None \<Rightarrow> None
          | Some price \<Rightarrow>
             (case moving_averages stock of
                None \<Rightarrow> None
              | Some ma \<Rightarrow> Some (trend_of price ma))))"

subsection \<open>\<^verbatim>\<open>get_momentum_score\<close>\<close>

text \<open>The literals \<^verbatim>\<open>0.4\<close> and \<^verbatim>\<open>0.6\<close> are the doubles nearest to 4/10 and 6/10.\<close>

definition weights :: "(string \<times> rat) list" where
  "weights = [(''15_day_change_%'', f64 (4 / 10)), (''30_day_change_%'', f64 (6 / 10))]"

definition momentum_step ::
  "(string \<times> fl option) list \<Rightarrow> string \<times> rat \<Rightarrow> fl \<times> fl \<Rightarrow> fl \<times> fl" where
  "momentum_step changes item acc =
     (case item of (period, weight) \<Rightarrow>
        (case acc of (score, total_weight) \<Rightarrow>
           (case map_of changes period of
              Some (Some change) \<Rightarrow>
                (f_add score (f_mul change (Fin weight)), f_add total_weight (Fin weight))
            | _ \<Rightarrow> (score, total_weight))))"

definition momentum_of :: "(string \<times> fl option) list \<Rightarrow> fl" where
  "momentum_of changes =
     (case fold (momentum_step changes) weights (Fin 0, Fin 0) of
        (score, total_weight) \<Rightarrow>
          fl_round (if fl_lt (Fin 0) total_weight then f_div score total_weight else Fin 0) 2)"

definition get_momentum_score :: "analysis_data \<Rightarrow> string \<Rightarrow> fl" where
  "get_momentum_score data symbol =
     (case map_of data symbol of
        None \<Rightarrow> Fin 0
      | Some d \<Rightarrow>
         (case price_changes d of
            None \<Rightarrow> Fin 0
          | Some changes \<Rightarrow> momentum_of changes))"

text \<open>
  The momentum section of \<^verbatim>\<open>generate_report\<close>: one pair per key of the data, in
  the dictionary's order, then sorted in place by the score, largest first.
\<close>

definition momentum_scores :: "analysis_data \<Rightarrow> (string \<times> fl) outcome" where
  "momentum_scores data =
     py_sorted_reverse snd
       (map (\<lambda>symbol. (symbol, get_momentum_score data symbol)) (map fst data))"

subsection \<open>Notions used to state the properties\<close>

text \<open>
  The number stored under a key of a dictionary of optional numbers: \<open>None\<close> when the
  key is missing or its value is \<^verbatim>\<open>null\<close>.
\<close>

definition defined_value :: "(string \<times> fl option) list \<Rightarrow> string \<Rightarrow> fl option" where
  "defined_value changes key = (case map_of changes key of Some (Some v) \<Rightarrow> Some v | _ \<Rightarrow> None)"

text \<open>The pair a record contributes to a ranking by \<open>period\<close>, if any.\<close>

definition defined_entry :: "string \<Rightarrow> string \<times> stock \<Rightarrow> (string \<times> fl) option" where
  "defined_entry period item =
     (case price_changes (snd item) of
        None \<Rightarrow> None
      | Some pc \<Rightarrow> map_option (Pair (fst item)) (defined_value pc period))"

text \<open>
  An entry of \<^verbatim>\<open>moving_averages\<close> takes part in the trend counts when its value is
  true and its name contains \<^verbatim>\<open>d_MA\<close>; it counts as above when its value is \<^verbatim>\<open><\<close>
  the price.
\<close>

definition participates :: "string \<times> fl option \<Rightarrow> bool" where
  "participates item =
     (case item of (ma_name, ma_value) \<Rightarrow>
        ma_value \<noteq> None \<and> ma_value \<noteq> Some (Fin 0) \<and> contains ''d_MA'' ma_name)"

definition is_above :: "fl \<Rightarrow> string \<times> fl option \<Rightarrow> bool" where
  "is_above price item = (case snd item of None \<Rightarrow> False | Some v \<Rightarrow> fl_lt v price)"

text \<open>
  A record with the keys that \<^verbatim>\<open>analyze_stock\<close> writes: the given 30-day change,
  and \<^verbatim>\<open>null\<close> for the 15-day change.
\<close>

definition rec_30d :: "fl option \<Rightarrow> stock" where
  "rec_30d c = \<lparr>current_stats = Some (Fin 100), moving_averages = Some [],
                price_changes = Some [(''15_day_change_%'', None), (''30_day_change_%'', c)]\<rparr>"

text \<open>
  The record \<^verbatim>\<open>{'error': 'Failed to fetch data'}\<close> that \<^verbatim>\<open>analyze_stock\<close> returns
  for a ticker without data: none of the three keys.
\<close>

definition error_marker :: stock where
  "error_marker = \<lparr>current_stats = None, moving_averages = None, price_changes = None\<rparr>"

text \<open>A record of a ticker with 60 bars or so: three of the five averages are defined.\<close>

definition rec_3_of_5 :: stock where
  "rec_3_of_5 =
     \<lparr>current_stats = Some (Fin 10),
      moving_averages = Some [(''15d_MA'', Some (Fin 5)), (''30d_MA'', Some (Fin 20)),
                              (''50d_MA'', Some (Fin 20)), (''100d_MA'', None),
                              (''200d_MA'', None)],
      price_changes = Some [(''15_day_change_%'', Some (Fin 1)),
                            (''30_day_change_%'', Some (Fin 2))]\<rparr>"

text \<open>
  Series used as concrete inputs: fifteen closes of 0; fourteen closes of 100000 followed
  by 100001; and the analysers' list of periods.
\<close>

definition zero_series :: "rat list" where
  "zero_series = replicate 15 0"


definition ma_periods :: "nat list" where
  "ma_periods = [15, 30, 50, 100, 200]"

section \<open>Properties of rounding\<close>

lemma rhe_of_int: "round_half_even (of_int k) = k"
  by (simp add: round_half_even_def)

lemma rhe_cases:
  "(round_half_even y = \<lfloor>y\<rfloor> \<and> y - of_int \<lfloor>y\<rfloor> \<le> 1 / 2) \<or>
   (round_half_even y = \<lfloor>y\<rfloor> + 1 \<and> 1 / 2 \<le> y - of_int \<lfloor>y\<rfloor>)"
  unfolding round_half_even_def Let_def by (simp only: split: if_split) linarith

lemma rhe_upper: "of_int (round_half_even y) \<le> y + 1 / 2"
proof -
  have "of_int \<lfloor>y\<rfloor> \<le> y + 1 / 2" by linarith
  with rhe_cases [of y] show ?thesis by (elim disjE conjE) simp_all
qed

lemma rhe_lower: "y - 1 / 2 \<le> of_int (round_half_even y)"
proof -
  have "y < of_int \<lfloor>y\<rfloor> + 1" by linarith
  with rhe_cases [of y] show ?thesis by (elim disjE conjE) simp_all
qed



lemma rhe_above: "of_int k - 1 / 2 < y \<Longrightarrow> k \<le> round_half_even y"
proof -
  assume "of_int k - 1 / 2 < y"
  with rhe_lower [of y] have "(of_int (k - 1) :: rat) < of_int (round_half_even y)" by simp
  then have "k - 1 < round_half_even y" by (simp only: of_int_less_iff)
  then show ?thesis by simp
qed



lemma py_round_exact: "py_round (of_int k / 10 ^ nd) nd = of_int k / 10 ^ nd"
  by (simp add: py_round_def rhe_of_int)

lemma py_round_idem: "py_round (py_round x nd) nd = py_round x nd"
  unfolding py_round_def [of x] by (rule py_round_exact)

lemma py_round_0: "py_round 0 nd = 0"
  using py_round_exact [of 0 nd] by simp






section \<open>Properties of the double rounding\<close>

lemma scale_down_spec:
  "0 < x \<Longrightarrow> 0 < s \<Longrightarrow> scale_down x s = (y, t) \<Longrightarrow>
     y * t = x * s \<and> 0 < y \<and> y < 9007199254740992 \<and> 0 < t"
proof (induction x s rule: scale_down.induct)
  case (1 x s)
  show ?case
  proof (cases "9007199254740992 \<le> x")
    case True
    with "1.prems" have rec: "scale_down (x / 2) (s * 2) = (y, t)"
      by (simp add: scale_down.simps [of x s])
    from "1.prems" have "0 < x / 2" and "0 < s * 2" by simp_all
    from "1.IH" [OF True this rec] show ?thesis by simp
  next
    case False
    with "1.prems" show ?thesis by (simp add: scale_down.simps [of x s])
  qed
qed

lemma scale_up_spec:
  "0 < x \<Longrightarrow> x < 9007199254740992 \<Longrightarrow> 0 < s \<Longrightarrow> scale_up x s = (m, t) \<Longrightarrow>
     m * t = x * s \<and> 4503599627370496 \<le> m \<and> m < 9007199254740992 \<and> 0 < t"
proof (induction x s rule: scale_up.induct)
  case (1 x s)
  show ?case
  proof (cases "0 < x \<and> x < 4503599627370496")
    case True
    with "1.prems" have rec: "scale_up (x * 2) (s / 2) = (m, t)"
      by (simp add: scale_up.simps [of x s])
    from True have "0 < x * 2" and "x * 2 < 9007199254740992" by simp_all
    moreover from "1.prems" have "0 < s / 2" by simp
    ultimately show ?thesis using "1.IH" [OF True _ _ _ rec] by simp
  next
    case False
    with "1.prems" show ?thesis by (simp add: scale_up.simps [of x s])
  qed
qed

lemma pow2_pos: "0 < pow2 k"
  by (simp add: pow2_def)

lemma binade_pos: "0 < binade x"
  by (simp add: binade_def pow2_pos)

lemma f64_normal:
  assumes "x \<noteq> 0"
  shows "\<exists>m t. 4503599627370496 \<le> m \<and> m < 9007199254740992 \<and> 0 < t \<and> m * t = \<bar>x\<bar> \<and>
               f64 x = sgn x * of_int (round_half_even m) * t"
proof -
  let ?g = "binade \<bar>x\<bar>"
  obtain y s where d: "scale_down (\<bar>x\<bar> / ?g) ?g = (y, s)" by (cases "scale_down (\<bar>x\<bar> / ?g) ?g")
  obtain m t where u: "scale_up y s = (m, t)" by (cases "scale_up y s")
  from assms have "0 < \<bar>x\<bar> / ?g" by (simp add: binade_pos)
  from scale_down_spec [OF this binade_pos d]
  have ys: "y * s = \<bar>x\<bar>" and y: "0 < y" "y < 9007199254740992" and s: "0 < s"
    using binade_pos [of "\<bar>x\<bar>"] by simp_all
  from scale_up_spec [OF y s u]
  have "m * t = \<bar>x\<bar>" and "4503599627370496 \<le> m" and "m < 9007199254740992" and "0 < t"
    using ys by simp_all
  moreover from assms d u have "f64 x = sgn x * of_int (round_half_even m) * t"
    by (simp add: f64_def)
  ultimately show ?thesis by blast
qed

lemma f64_zero: "f64 0 = 0"
  by (simp add: f64_def)

lemma f64_error: "\<bar>f64 x - x\<bar> \<le> \<bar>x\<bar> / 9007199254740992"
proof (cases "x = 0")
  case True
  then show ?thesis by (simp add: f64_zero)
next
  case False
  from f64_normal [OF this] obtain m t where
    m: "4503599627370496 \<le> m" and t: "0 < t" and mt: "m * t = \<bar>x\<bar>" and
    v: "f64 x = sgn x * of_int (round_half_even m) * t"
    by blast
  let ?r = "of_int (round_half_even m) :: rat"
  have x: "x = sgn x * (m * t)" by (simp add: mt sgn_mult_abs)
  have "f64 x - x = sgn x * ((?r - m) * t)"
    by (subst (2) x) (simp add: v algebra_simps)
  then have "\<bar>f64 x - x\<bar> = \<bar>?r - m\<bar> * t"
    using False t by (simp add: abs_mult abs_sgn_eq)
  also have "\<dots> \<le> (1 / 2) * t"
  proof (rule mult_right_mono)
    from rhe_upper [of m] rhe_lower [of m] show "\<bar>?r - m\<bar> \<le> 1 / 2" by linarith
    from t show "0 \<le> t" by simp
  qed
  also have "\<dots> \<le> \<bar>x\<bar> / 9007199254740992"
  proof -
    from m t have "4503599627370496 * t \<le> m * t" by (simp only: mult_le_cancel_right) simp
    then have "4503599627370496 * t \<le> \<bar>x\<bar>" by (simp only: mt)
    then show ?thesis by simp
  qed
  finally show ?thesis .
qed

lemma f64_pos: "0 < x \<Longrightarrow> 0 < f64 x"
proof -
  assume pos: "0 < x"
  then have "x \<noteq> 0" by simp
  from f64_normal [OF this] obtain m t where
    m: "4503599627370496 \<le> m" and t: "0 < t" and
    v: "f64 x = sgn x * of_int (round_half_even m) * t"
    by blast
  from m have "of_int 1 - 1 / 2 < m" by simp
  then have "1 \<le> round_half_even m" by (rule rhe_above)
  then have "(0::rat) < of_int (round_half_even m)" by simp
  with pos t show ?thesis by (simp add: v)
qed






section \<open>Sorting\<close>

lemma fl_lt_irrefl: "\<not> fl_lt a a"
  by (cases a) simp_all

lemma rank_less_iff: "a \<noteq> NaN \<Longrightarrow> b \<noteq> NaN \<Longrightarrow> rank a < rank b \<longleftrightarrow> fl_lt a b"
  by (cases a; cases b) (simp_all add: less_prod_def)

lemma rank_le_iff: "a \<noteq> NaN \<Longrightarrow> b \<noteq> NaN \<Longrightarrow> rank a \<le> rank b \<longleftrightarrow> fl_le a b"
  by (cases a; cases b) (simp_all add: less_eq_prod_def fl_le_def not_less)

lemma rank_eq_iff: "rank a = rank b \<longleftrightarrow> a = b"
  by (cases a; cases b) simp_all

lemma py_sorted_reverse_numbers:
  assumes "list_all (\<lambda>x. key x \<noteq> NaN) xs"
  shows "py_sorted_reverse key xs = Returns (rev (sort_key (\<lambda>x. rank (key x)) (rev xs)))"
  using assms by (simp add: py_sorted_reverse_def)

lemma stable_sort_descending:
  assumes "list_all (\<lambda>x. key x \<noteq> NaN) xs"
  shows "sorted_wrt (\<lambda>a b. fl_le (key b) (key a)) (rev (sort_key (\<lambda>x. rank (key x)) (rev xs)))"
proof -
  let ?f = "\<lambda>x. rank (key x)"
  let ?ys = "rev (sort_key ?f (rev xs))"
  have "sorted (map ?f (sort_key ?f (rev xs)))" by (rule sorted_sort_key)
  then have "sorted_wrt (\<lambda>a b. ?f a \<le> ?f b) (sort_key ?f (rev xs))"
    by (simp add: sorted_wrt_map)
  then have by_rank: "sorted_wrt (\<lambda>a b. ?f b \<le> ?f a) ?ys"
    by (simp add: sorted_wrt_rev)
  from assms have numbers: "\<And>x. x \<in> set ?ys \<Longrightarrow> key x \<noteq> NaN"
    by (simp add: list_all_iff)
  show ?thesis
  proof (rule sorted_wrt_mono_rel [OF _ by_rank])
    fix a b
    assume "a \<in> set ?ys" and "b \<in> set ?ys" and "?f b \<le> ?f a"
    then show "fl_le (key b) (key a)"
      using numbers rank_le_iff by blast
  qed
qed

lemma stable_sort_keeps_order:
  "filter (\<lambda>x. key x = k) (rev (sort_key (\<lambda>x. rank (key x)) (rev xs)))
     = filter (\<lambda>x. key x = k) xs"
proof -
  let ?f = "\<lambda>x. rank (key x)"
  have same: "(\<lambda>x. key x = k) = (\<lambda>x. ?f x = rank k)"
    by (simp add: rank_eq_iff)
  have "filter (\<lambda>x. ?f x = rank k) (rev (sort_key ?f (rev xs)))
        = rev (filter (\<lambda>x. ?f x = rank k) (sort_key ?f (rev xs)))"
    by (simp add: rev_filter)
  also have "\<dots> = rev (filter (\<lambda>x. ?f x = rank k) (rev xs))"
    by (simp only: sort_key_stable)
  also have "\<dots> = filter (\<lambda>x. ?f x = rank k) xs"
    by (simp add: rev_filter)
  finally show ?thesis by (simp only: same)
qed

lemma set_items_py_sorted_reverse: "set (items (py_sorted_reverse key xs)) = set xs"
  by (simp add: py_sorted_reverse_def)

lemma hd_sorted_desc:
  assumes "sorted_wrt (\<lambda>a b. fl_le (key b) (key a)) xs" and "x \<in> set xs" and "key x \<noteq> NaN"
  shows "fl_le (key x) (key (hd xs))"
  using assms by (cases xs) (auto simp: fl_le_def fl_lt_irrefl)

lemma last_sorted_desc:
  assumes "sorted_wrt (\<lambda>a b. fl_le (key b) (key a)) xs" and "x \<in> set xs" and "key x \<noteq> NaN"
  shows "fl_le (key (last xs)) (key x)"
  using assms by (induction xs) (auto simp: fl_le_def fl_lt_irrefl split: if_splits)

section \<open>Collecting the performances\<close>

lemma performances_step_eq:
  "performances_step period item acc =
     acc @ (case defined_entry period item of None \<Rightarrow> [] | Some e \<Rightarrow> [e])"
  by (cases item)
     (simp add: performances_step_def defined_entry_def defined_value_def split: option.splits)

lemma performances_fold:
  "fold (performances_step period) data acc = acc @ List.map_filter (defined_entry period) data"
proof (induction data arbitrary: acc)
  case Nil
  show ?case by (simp add: map_filter_simps)
next
  case (Cons item data)
  have "fold (performances_step period) (item # data) acc
        = fold (performances_step period) data (performances_step period item acc)"
    by simp
  also have "\<dots> = performances_step period item acc @ List.map_filter (defined_entry period) data"
    by (rule Cons.IH)
  also have "\<dots> = acc @ List.map_filter (defined_entry period) (item # data)"
    by (simp add: performances_step_eq map_filter_simps split: option.splits)
  finally show ?case .
qed

lemma set_performances:
  "set (fold (performances_step period) data [])
     = {e. \<exists>item \<in> set data. defined_entry period item = Some e}"
  by (force simp: performances_fold map_filter_def)

lemma defined_entry_Some_iff:
  "defined_entry period item = Some (symbol, change) \<longleftrightarrow>
     fst item = symbol \<and>
     (\<exists>pc. price_changes (snd item) = Some pc \<and> defined_value pc period = Some change)"
  by (auto simp: defined_entry_def split: option.splits)

lemma map_fst_map_filter_defined_entry:
  "map fst (List.map_filter (defined_entry period) data)
     = map fst (filter (\<lambda>item. defined_entry period item \<noteq> None) data)"
  by (induction data) (auto simp: map_filter_simps defined_entry_def split: option.splits)

lemma distinct_fst_performances:
  assumes "distinct (map fst data)"
  shows "distinct (map fst (fold (performances_step period) data []))"
proof -
  have "distinct (map fst (filter (\<lambda>item. defined_entry period item \<noteq> None) data))"
    using assms by (rule distinct_map_filter)
  then show ?thesis
    by (simp add: performances_fold map_fst_map_filter_defined_entry)
qed

lemma distinct_map_stable_sort:
  "distinct (map f (rev (sort_key g (rev xs)))) = distinct (map f xs)"
  by (simp add: distinct_map)

section \<open>Momentum score\<close>

lemma py_round_grid: "\<exists>k::int. py_round x nd = of_int k / 10 ^ nd"
  by (auto simp: py_round_def)

lemma py_round_near: "\<bar>py_round x nd - x\<bar> \<le> 1 / (2 * 10 ^ nd)"
proof -
  let ?y = "x * 10 ^ nd"
  have "\<bar>of_int (round_half_even ?y) - ?y\<bar> \<le> 1 / 2"
    using rhe_upper [of ?y] rhe_lower [of ?y] by linarith
  then have "\<bar>of_int (round_half_even ?y) - ?y\<bar> / 10 ^ nd \<le> (1 / 2) / 10 ^ nd"
    by (rule divide_right_mono) simp
  moreover have "py_round x nd - x = (of_int (round_half_even ?y) - ?y) / 10 ^ nd"
    by (simp add: py_round_def diff_divide_distrib)
  ultimately show ?thesis by (simp add: abs_divide)
qed

lemma f64_rel:
  assumes "\<bar>y - x\<bar> \<le> e * \<bar>x\<bar>"
  shows "\<bar>f64 y - x\<bar> \<le> (e + (1 + e) / 9007199254740992) * \<bar>x\<bar>"
proof -
  have "\<bar>y\<bar> \<le> \<bar>x\<bar> + \<bar>y - x\<bar>" by simp
  with assms have "\<bar>y\<bar> \<le> (1 + e) * \<bar>x\<bar>" by (simp add: algebra_simps)
  then have "\<bar>y\<bar> / 9007199254740992 \<le> (1 + e) * \<bar>x\<bar> / 9007199254740992"
    by (rule divide_right_mono) simp
  with f64_error [of y] have "\<bar>f64 y - y\<bar> \<le> (1 + e) * \<bar>x\<bar> / 9007199254740992" by simp
  moreover have "\<bar>f64 y - x\<bar> \<le> \<bar>f64 y - y\<bar> + \<bar>y - x\<bar>" by simp
  ultimately have "\<bar>f64 y - x\<bar> \<le> (1 + e) * \<bar>x\<bar> / 9007199254740992 + e * \<bar>x\<bar>"
    using assms by linarith
  then show ?thesis by (simp add: algebra_simps)
qed

text \<open>Multiplying by a weight and dividing by it again, as the loop does for one horizon.\<close>

lemma weight_round_trip:
  assumes w: "0 < w"
  shows "\<bar>f64 (f64 (f64 (b * w)) / w) - b\<bar> \<le> \<bar>b\<bar> / 2251799813685248"
proof -
  let ?u = "1 / 9007199254740992 :: rat"
  have "\<bar>b * w - b * w\<bar> \<le> 0 * \<bar>b * w\<bar>" by simp
  from f64_rel [OF this] have t1: "\<bar>f64 (b * w) - b * w\<bar> \<le> ?u * \<bar>b * w\<bar>" by simp
  from f64_rel [OF t1]
  have t2: "\<bar>f64 (f64 (b * w)) - b * w\<bar> \<le> (?u + (1 + ?u) / 9007199254740992) * \<bar>b * w\<bar>" .
  let ?e = "?u + (1 + ?u) / 9007199254740992"
  let ?t = "f64 (f64 (b * w))"
  have "?t / w - b = (?t - b * w) / w" using w by (simp add: diff_divide_distrib)
  then have "\<bar>?t / w - b\<bar> = \<bar>?t - b * w\<bar> / w" using w by (simp add: abs_divide)
  also have "\<dots> \<le> (?e * \<bar>b * w\<bar>) / w"
  proof (rule divide_right_mono)
    show "\<bar>?t - b * w\<bar> \<le> ?e * \<bar>b * w\<bar>" by (rule t2)
    show "0 \<le> w" using w by simp
  qed
  also have "\<dots> = ?e * \<bar>b\<bar>" using w by (simp add: abs_mult)
  finally have q: "\<bar>?t / w - b\<bar> \<le> ?e * \<bar>b\<bar>" .
  from f64_rel [OF q]
  have "\<bar>f64 (?t / w) - b\<bar> \<le> (?e + (1 + ?e) / 9007199254740992) * \<bar>b\<bar>" .
  also have "\<dots> \<le> (1 / 2251799813685248) * \<bar>b\<bar>"
    by (rule mult_right_mono) simp_all
  finally show ?thesis by simp
qed

lemma weight_15_pos: "0 < f64 (4 / 10)"
  by (rule f64_pos) simp

lemma weight_30_pos: "0 < f64 (6 / 10)"
  by (rule f64_pos) simp

lemma momentum_of_cases:
  "momentum_of changes =
     (case (defined_value changes ''15_day_change_%'', defined_value changes ''30_day_change_%'') of
        (None, None) \<Rightarrow> Fin 0
      | (Some a, None) \<Rightarrow>
          fl_round (f_div (f_add (Fin 0) (f_mul a (Fin (f64 (4 / 10)))))
                          (f_add (Fin 0) (Fin (f64 (4 / 10))))) 2
      | (None, Some b) \<Rightarrow>
          fl_round (f_div (f_add (Fin 0) (f_mul b (Fin (f64 (6 / 10)))))
                          (f_add (Fin 0) (Fin (f64 (6 / 10))))) 2
      | (Some a, Some b) \<Rightarrow>
          fl_round (f_div (f_add (f_add (Fin 0) (f_mul a (Fin (f64 (4 / 10)))))
                                 (f_mul b (Fin (f64 (6 / 10)))))
                          (f_add (f_add (Fin 0) (Fin (f64 (4 / 10)))) (Fin (f64 (6 / 10))))) 2)"
proof -
  define w15 :: rat where "w15 = f64 (4 / 10)"
  define w30 :: rat where "w30 = f64 (6 / 10)"
  have ws: "weights = [(''15_day_change_%'', w15), (''30_day_change_%'', w30)]"
    by (simp only: weights_def w15_def w30_def)
  have q15: "0 < w15" unfolding w15_def by (rule weight_15_pos)
  have q30: "0 < w30" unfolding w30_def by (rule weight_30_pos)
  have p15: "0 < f64 w15" using q15 by (rule f64_pos)
  have p30: "0 < f64 w30" using q30 by (rule f64_pos)
  have pb: "0 < f64 (f64 w15 + w30)"
    by (rule f64_pos) (rule add_pos_pos [OF p15 q30])
  show ?thesis
    unfolding w15_def [symmetric] w30_def [symmetric]
    by (simp add: momentum_of_def ws momentum_step_def defined_value_def f_add_def
                  p15 p30 pb py_round_0
             split: option.splits)
qed

lemma rhe_tie_even: "\<bar>of_int (round_half_even y) - y\<bar> = 1 / 2 \<Longrightarrow> even (round_half_even y)"
proof -
  assume tie: "\<bar>of_int (round_half_even y) - y\<bar> = 1 / 2"
  have fl: "of_int \<lfloor>y\<rfloor> \<le> y" "y < of_int \<lfloor>y\<rfloor> + 1" by linarith+
  consider "y - of_int \<lfloor>y\<rfloor> < 1 / 2" | "1 / 2 < y - of_int \<lfloor>y\<rfloor>" | "y - of_int \<lfloor>y\<rfloor> = 1 / 2"
    by linarith
  then show ?thesis
  proof cases
    case 1
    then have "round_half_even y = \<lfloor>y\<rfloor>" by (simp add: round_half_even_def Let_def)
    with tie 1 fl show ?thesis by simp
  next
    case 2
    then have "round_half_even y = \<lfloor>y\<rfloor> + 1" by (simp add: round_half_even_def Let_def)
    with tie 2 fl show ?thesis by simp
  next
    case 3
    then show ?thesis by (simp add: round_half_even_def Let_def)
  qed
qed



lemma weight_30_value: "f64 (6 / 10) = 5404319552844595 / 9007199254740992"
  by code_simp


lemma weight_30_double: "f64 (5404319552844595 / 9007199254740992) = 5404319552844595 / 9007199254740992"
  by code_simp


lemma weight_30_idem: "f64 (f64 (6 / 10)) = f64 (6 / 10)"
  by (simp only: weight_30_value weight_30_double)

lemma single_horizon:
  assumes w: "0 < w" and idem: "f64 w = w"
  shows "fl_round (f_div (f_add (Fin 0) (f_mul (Fin b) (Fin w))) (f_add (Fin 0) (Fin w))) 2
           = Fin (py_round (f64 (f64 (f64 (b * w)) / w)) 2)"
  using w by (simp add: f_add_def f_mul_def f_div_def idem)

lemma single_horizon_near:
  assumes w: "0 < w"
  shows "\<bar>py_round (f64 (f64 (f64 (b * w)) / w)) 2 - b\<bar> \<le> 1 / 200 + \<bar>b\<bar> / 2251799813685248"
proof -
  let ?q = "f64 (f64 (f64 (b * w)) / w)"
  have "\<bar>py_round ?q 2 - ?q\<bar> \<le> 1 / 200" using py_round_near [of ?q 2] by simp
  moreover have "\<bar>?q - b\<bar> \<le> \<bar>b\<bar> / 2251799813685248" using w by (rule weight_round_trip)
  ultimately show ?thesis by linarith
qed

lemma single_horizon_exact:
  assumes w: "0 < w" and b: "b = of_int j / 100" and small: "\<bar>b\<bar> \<le> 1000000000000"
  shows "py_round (f64 (f64 (f64 (b * w)) / w)) 2 = b"
proof -
  let ?q = "f64 (f64 (f64 (b * w)) / w)"
  obtain k :: int where k: "py_round ?q 2 = of_int k / 100"
    using py_round_grid [of ?q 2] by auto
  from small have "\<bar>b\<bar> / 2251799813685248 \<le> 1000000000000 / 2251799813685248"
    by (rule divide_right_mono) simp
  then have "\<bar>b\<bar> / 2251799813685248 < 1 / 200" by simp
  with single_horizon_near [OF w, of b] have "\<bar>py_round ?q 2 - b\<bar> < 1 / 100" by linarith
  then have "\<bar>of_int k / 100 - b\<bar> < 1 / 100" by (simp only: k)
  then have "\<bar>of_int k / 100 - of_int j / (100::rat)\<bar> < 1 / 100" by (simp only: b)
  then have "\<bar>(of_int k - of_int j) / (100::rat)\<bar> < 1 / 100"
    by (simp only: diff_divide_distrib)
  then have "\<bar>of_int (k - j) :: rat\<bar> < 1" by (simp add: abs_divide)
  then have "\<bar>k - j\<bar> < 1" by (simp only: of_int_abs [symmetric] of_int_less_1_iff)
  then have "k = j" by simp
  then have "py_round ?q 2 = of_int j / 100" by (simp only: k)
  then show ?thesis by (simp only: b [symmetric])
qed

lemma momentum_30d_only:
  assumes "map_of data symbol = Some d" and "price_changes d = Some changes"
    and "defined_value changes ''15_day_change_%'' = None"
    and "defined_value changes ''30_day_change_%'' = Some (Fin b)"
  shows "get_momentum_score data symbol
           = Fin (py_round (f64 (f64 (f64 (b * f64 (6 / 10))) / f64 (6 / 10))) 2)"
proof -
  have "get_momentum_score data symbol
          = fl_round (f_div (f_add (Fin 0) (f_mul (Fin b) (Fin (f64 (6 / 10)))))
                            (f_add (Fin 0) (Fin (f64 (6 / 10))))) 2"
    using assms by (simp add: get_momentum_score_def momentum_of_cases)
  also have "\<dots> = Fin (py_round (f64 (f64 (f64 (b * f64 (6 / 10))) / f64 (6 / 10))) 2)"
    using weight_30_pos weight_30_idem by (rule single_horizon)
  finally show ?thesis .
qed

lemma momentum_rec_30d:
  assumes "map_of data symbol = Some (rec_30d (Some (Fin b)))"
    and "b = of_int j / 100" and "\<bar>b\<bar> \<le> 1000000000000"
  shows "get_momentum_score data symbol = Fin b"
proof -
  have pc: "price_changes (rec_30d (Some (Fin b)))
              = Some [(''15_day_change_%'', None), (''30_day_change_%'', Some (Fin b))]"
    by (simp add: rec_30d_def)
  have "get_momentum_score data symbol
          = Fin (py_round (f64 (f64 (f64 (b * f64 (6 / 10))) / f64 (6 / 10))) 2)"
    by (rule momentum_30d_only [OF assms(1) pc]) (simp_all add: defined_value_def)
  also have "\<dots> = Fin b"
    using single_horizon_exact [OF weight_30_pos assms(2) assms(3)] by simp
  finally show ?thesis .
qed

text \<open>
  C10. For a symbol that is not a key of the loaded data, and for a symbol whose record
  has no \<^verbatim>\<open>price_changes\<close> (an error marker), \<^verbatim>\<open>get_momentum_score\<close> is 0; and
  every ticker of the data whose record has no \<^verbatim>\<open>price_changes\<close> is in the momentum
  ranking, with the score 0.
\<close>

theorem momentum_score_missing_is_zero:
  "(map_of data symbol = None \<longrightarrow> get_momentum_score data symbol = Fin 0) \<and>
   (\<forall>d. map_of data symbol = Some d \<and> price_changes d = None \<longrightarrow>
        get_momentum_score data symbol = Fin 0) \<and>
   (\<forall>d. distinct (map fst data) \<and> (symbol, d) \<in> set data \<and> price_changes d = None \<longrightarrow>
        (symbol, Fin 0) \<in> set (items (momentum_scores data)))"
proof (intro conjI allI impI)
  assume "map_of data symbol = None"
  then show "get_momentum_score data symbol = Fin 0"
    by (simp add: get_momentum_score_def)
next
  fix d
  assume "map_of data symbol = Some d \<and> price_changes d = None"
  then show "get_momentum_score data symbol = Fin 0"
    by (simp add: get_momentum_score_def)
next
  fix d
  assume a: "distinct (map fst data) \<and> (symbol, d) \<in> set data \<and> price_changes d = None"
  then have mo: "map_of data symbol = Some d" by simp
  from a have pc: "price_changes d = None" by simp
  have "get_momentum_score data symbol = Fin 0"
    by (simp add: get_momentum_score_def mo pc)
  moreover from a have "symbol \<in> set (map fst data)" by force
  ultimately show "(symbol, Fin 0) \<in> set (items (momentum_scores data))"
    by (force simp: momentum_scores_def set_items_py_sorted_reverse)
qed

theorem momentum_score_missing_is_zero_witness:
  "get_momentum_score [(''AAPL'', rec_30d (Some (Fin 10))), (''UBER'', error_marker)] ''NVDA''
     = Fin 0 \<and>
   get_momentum_score [(''AAPL'', rec_30d (Some (Fin 10))), (''UBER'', error_marker)] ''UBER''
     = Fin 0 \<and>
   (''UBER'', Fin 0)
     \<in> set (items (momentum_scores [(''AAPL'', rec_30d (Some (Fin 10))), (''UBER'', error_marker)]))"
  using momentum_score_missing_is_zero
          [of "[(''AAPL'', rec_30d (Some (Fin 10))), (''UBER'', error_marker)]" "''NVDA''"]
        momentum_score_missing_is_zero
          [of "[(''AAPL'', rec_30d (Some (Fin 10))), (''UBER'', error_marker)]" "''UBER''"]
  by (simp add: error_marker_def)

















section \<open>Momentum ranking\<close>

text \<open>
  C7, as stated, fails: two tickers with equal scores are ranked in the order of the
  loaded dictionary, whichever their symbols, so the ranking depends on the input order
  and a tie is not broken by the symbol.
\<close>

theorem momentum_ranking_tie_counterexample:
  "momentum_scores [(''MSFT'', rec_30d (Some (Fin 10))), (''AAPL'', rec_30d (Some (Fin 10)))]
     = Returns [(''MSFT'', Fin 10), (''AAPL'', Fin 10)] \<and>
   momentum_scores [(''AAPL'', rec_30d (Some (Fin 10))), (''MSFT'', rec_30d (Some (Fin 10)))]
     = Returns [(''AAPL'', Fin 10), (''MSFT'', Fin 10)]"
proof -
  have grid: "(10::rat) = of_int 1000 / 100" and small: "\<bar>10::rat\<bar> \<le> 1000000000000"
    by simp_all
  have s: "\<And>data symbol. map_of data symbol = Some (rec_30d (Some (Fin 10))) \<Longrightarrow>
             get_momentum_score data symbol = Fin 10"
    by (rule momentum_rec_30d [OF _ grid small])
  have a: "py_sorted_reverse snd [(''MSFT'', Fin 10), (''AAPL'', Fin 10)]
             = Returns [(''MSFT'', Fin 10), (''AAPL'', Fin 10)]"
    by code_simp
  have b: "py_sorted_reverse snd [(''AAPL'', Fin 10), (''MSFT'', Fin 10)]
             = Returns [(''AAPL'', Fin 10), (''MSFT'', Fin 10)]"
    by code_simp
  show ?thesis by (simp add: momentum_scores_def s a b)
qed

text \<open>
  C7, amended. For every collection of records none of whose momentum scores is NaN, the
  momentum ranking is in descending order of the score, and the tickers that share a
  score appear in the order in which the loaded dictionary holds them (the sort is
  stable; there is no tie-break by symbol).
\<close>

theorem momentum_ranking_stable:
  assumes "\<forall>symbol \<in> set (map fst data). get_momentum_score data symbol \<noteq> NaN"
  shows "\<exists>ranking. momentum_scores data = Returns ranking \<and>
           sorted_wrt (\<lambda>a b. fl_le (snd b) (snd a)) ranking \<and>
           (\<forall>k. map fst (filter (\<lambda>e. snd e = k) ranking)
                  = filter (\<lambda>symbol. get_momentum_score data symbol = k) (map fst data))"
proof -
  let ?xs = "map (\<lambda>symbol. (symbol, get_momentum_score data symbol)) (map fst data)"
  let ?r = "rev (sort_key (\<lambda>x. rank (snd x)) (rev ?xs))"
  from assms have numbers: "list_all (\<lambda>x. snd x \<noteq> NaN) ?xs"
    by (simp add: list_all_iff)
  then have r: "momentum_scores data = Returns ?r"
    unfolding momentum_scores_def by (rule py_sorted_reverse_numbers)
  from numbers have d: "sorted_wrt (\<lambda>a b. fl_le (snd b) (snd a)) ?r"
    by (rule stable_sort_descending)
  have st: "\<forall>k. map fst (filter (\<lambda>e. snd e = k) ?r)
                  = filter (\<lambda>symbol. get_momentum_score data symbol = k) (map fst data)"
  proof
    fix k
    have "filter (\<lambda>e. snd e = k) ?r = filter (\<lambda>e. snd e = k) ?xs"
      by (rule stable_sort_keeps_order)
    then show "map fst (filter (\<lambda>e. snd e = k) ?r)
                 = filter (\<lambda>symbol. get_momentum_score data symbol = k) (map fst data)"
      by (simp add: filter_map comp_def)
  qed
  show ?thesis
  proof (intro exI conjI)
    show "momentum_scores data = Returns ?r" by (rule r)
    show "sorted_wrt (\<lambda>a b. fl_le (snd b) (snd a)) ?r" by (rule d)
    show "\<forall>k. map fst (filter (\<lambda>e. snd e = k) ?r)
                  = filter (\<lambda>symbol. get_momentum_score data symbol = k) (map fst data)"
      by (rule st)
  qed
qed

text \<open>
  Three tickers with the scores 10, 20 and 10: the ranking lists the two tied ones in the
  order of the data.
\<close>

theorem momentum_ranking_stable_witness:
  "\<exists>ranking.
     momentum_scores [(''MSFT'', rec_30d (Some (Fin 10))), (''NVDA'', rec_30d (Some (Fin 20))),
                      (''AAPL'', rec_30d (Some (Fin 10)))] = Returns ranking \<and>
     sorted_wrt (\<lambda>a b. fl_le (snd b) (snd a)) ranking \<and>
     map fst (filter (\<lambda>e. snd e = Fin 10) ranking) = [''MSFT'', ''AAPL'']"
proof -
  let ?data = "[(''MSFT'', rec_30d (Some (Fin 10))), (''NVDA'', rec_30d (Some (Fin 20))),
                (''AAPL'', rec_30d (Some (Fin 10)))]"
  have g10: "(10::rat) = of_int 1000 / 100" and s10: "\<bar>10::rat\<bar> \<le> 1000000000000"
    and g20: "(20::rat) = of_int 2000 / 100" and s20: "\<bar>20::rat\<bar> \<le> 1000000000000"
    by simp_all
  have m: "get_momentum_score ?data ''MSFT'' = Fin 10"
    by (rule momentum_rec_30d [OF _ g10 s10]) simp
  have n: "get_momentum_score ?data ''NVDA'' = Fin 20"
    by (rule momentum_rec_30d [OF _ g20 s20]) simp
  have a: "get_momentum_score ?data ''AAPL'' = Fin 10"
    by (rule momentum_rec_30d [OF _ g10 s10]) simp
  have h: "\<forall>symbol \<in> set (map fst ?data). get_momentum_score ?data symbol \<noteq> NaN"
    using m n a by simp
  from momentum_ranking_stable [OF h] obtain ranking where
    r: "momentum_scores ?data = Returns ranking" and
    d: "sorted_wrt (\<lambda>a b. fl_le (snd b) (snd a)) ranking" and
    st: "\<forall>k. map fst (filter (\<lambda>e. snd e = k) ranking)
               = filter (\<lambda>symbol. get_momentum_score ?data symbol = k) (map fst ?data)"
    by blast
  from st have "map fst (filter (\<lambda>e. snd e = Fin 10) ranking)
               = filter (\<lambda>symbol. get_momentum_score ?data symbol = Fin 10) (map fst ?data)"
    by (rule spec)
  also have "\<dots> = [''MSFT'', ''AAPL'']" using m n a by simp
  finally have t: "map fst (filter (\<lambda>e. snd e = Fin 10) ranking) = [''MSFT'', ''AAPL'']" .
  show ?thesis
  proof (intro exI conjI)
    show "momentum_scores ?data = Returns ranking" by (rule r)
    show "sorted_wrt (\<lambda>a b. fl_le (snd b) (snd a)) ranking" by (rule d)
    show "map fst (filter (\<lambda>e. snd e = Fin 10) ranking) = [''MSFT'', ''AAPL'']" by (rule t)
  qed
qed

section \<open>Best performers\<close>

lemma report_best_nonempty: "xs \<noteq> [] \<Longrightarrow> report_best xs = Some (hd xs)"
  by (simp add: report_best_def)

lemma report_worst_nonempty: "xs \<noteq> [] \<Longrightarrow> report_worst xs = Some (last xs)"
  by (simp add: report_worst_def)

text \<open>
  C6, as stated, fails: a change that is NaN is a defined value (the analyser writes one
  for a series that is flat at 0, and \<^verbatim>\<open>json\<close> reads it back), and the comparisons
  with it are all false. With B at -5.0, N at NaN and A at +10.0, in this order, the list
  comes back unchanged: it is not in descending order, the best performer reported is B
  and the worst is A.
\<close>

theorem best_performers_nan_counterexample:
  "get_best_performers
     [(''B'', rec_30d (Some (Fin (- 5)))), (''N'', rec_30d (Some NaN)),
      (''A'', rec_30d (Some (Fin 10)))] ''30_day_change_%''
     = Returns [(''B'', Fin (- 5)), (''N'', NaN), (''A'', Fin 10)] \<and>
   report_best [(''B'', Fin (- 5)), (''N'', NaN), (''A'', Fin 10)] = Some (''B'', Fin (- 5)) \<and>
   report_worst [(''B'', Fin (- 5)), (''N'', NaN), (''A'', Fin 10)] = Some (''A'', Fin 10) \<and>
   fl_lt (Fin (- 5)) (Fin 10)"
  by code_simp

text \<open>
  C6, amended. For every collection of records and every horizon key for which no record
  holds NaN, the ranking holds exactly the pairs (symbol, change) of the records whose
  change for that horizon is defined (a record without the key, or with \<^verbatim>\<open>null\<close> under
  it, is left out), each symbol once; it is in descending order of the change; the
  report's best performer is the head of the list and its weakest performer the last
  element, which carry the largest and the smallest change.
\<close>

theorem best_performers_ranking:
  assumes "\<forall>item \<in> set data. \<forall>pc. price_changes (snd item) = Some pc \<longrightarrow>
             defined_value pc period \<noteq> Some NaN"
  shows "\<exists>performers. get_best_performers data period = Returns performers \<and>
    (\<forall>symbol change.
       (symbol, change) \<in> set performers \<longleftrightarrow>
       (\<exists>d pc. (symbol, d) \<in> set data \<and> price_changes d = Some pc \<and>
                defined_value pc period = Some change)) \<and>
    (distinct (map fst data) \<longrightarrow> distinct (map fst performers)) \<and>
    sorted_wrt (\<lambda>a b. fl_le (snd b) (snd a)) performers \<and>
    (performers \<noteq> [] \<longrightarrow>
       report_best performers = Some (hd performers) \<and>
       report_worst performers = Some (last performers) \<and>
       (\<forall>e \<in> set performers.
          fl_le (snd e) (snd (hd performers)) \<and> fl_le (snd (last performers)) (snd e)))"
proof -
  let ?xs = "fold (performances_step period) data []"
  let ?ps = "rev (sort_key (\<lambda>x. rank (snd x)) (rev ?xs))"
  have mem: "\<And>symbol change. (symbol, change) \<in> set ?xs \<longleftrightarrow>
        (\<exists>d pc. (symbol, d) \<in> set data \<and> price_changes d = Some pc \<and>
                 defined_value pc period = Some change)"
    by (force simp: set_performances defined_entry_Some_iff)
  have no_nan: "\<And>e. e \<in> set ?xs \<Longrightarrow> snd e \<noteq> NaN"
  proof -
    fix e
    assume e: "e \<in> set ?xs"
    obtain symbol change where sc: "e = (symbol, change)" by (cases e)
    with e mem obtain d pc where "(symbol, d) \<in> set data" and "price_changes d = Some pc"
      and "defined_value pc period = Some change" by blast
    with assms have "change \<noteq> NaN" by force
    with sc show "snd e \<noteq> NaN" by simp
  qed
  then have numbers: "list_all (\<lambda>x. snd x \<noteq> NaN) ?xs"
    by (simp add: list_all_iff)
  then have r: "get_best_performers data period = Returns ?ps"
    unfolding get_best_performers_def by (rule py_sorted_reverse_numbers)
  have set_ps: "set ?ps = set ?xs" by simp
  have m: "\<forall>symbol change.
       (symbol, change) \<in> set ?ps \<longleftrightarrow>
       (\<exists>d pc. (symbol, d) \<in> set data \<and> price_changes d = Some pc \<and>
                defined_value pc period = Some change)"
    unfolding set_ps using mem by blast
  have di: "distinct (map fst data) \<longrightarrow> distinct (map fst ?ps)"
    by (simp only: distinct_map_stable_sort) (rule impI, rule distinct_fst_performances)
  from numbers have so: "sorted_wrt (\<lambda>a b. fl_le (snd b) (snd a)) ?ps"
    by (rule stable_sort_descending)
  have ends: "?ps \<noteq> [] \<longrightarrow>
       report_best ?ps = Some (hd ?ps) \<and>
       report_worst ?ps = Some (last ?ps) \<and>
       (\<forall>e \<in> set ?ps. fl_le (snd e) (snd (hd ?ps)) \<and> fl_le (snd (last ?ps)) (snd e))"
  proof (intro impI conjI ballI)
    assume ne: "?ps \<noteq> []"
    then show "report_best ?ps = Some (hd ?ps)" by (rule report_best_nonempty)
    from ne show "report_worst ?ps = Some (last ?ps)" by (rule report_worst_nonempty)
  next
    fix e
    assume e: "e \<in> set ?ps"
    then have "e \<in> set ?xs" by simp
    then have n: "snd e \<noteq> NaN" by (rule no_nan)
    from so e n show "fl_le (snd e) (snd (hd ?ps))" by (rule hd_sorted_desc)
    from so e n show "fl_le (snd (last ?ps)) (snd e)" by (rule last_sorted_desc)
  qed
  show ?thesis
  proof (intro exI conjI)
    show "get_best_performers data period = Returns ?ps" by (rule r)
    show "\<forall>symbol change.
       (symbol, change) \<in> set ?ps \<longleftrightarrow>
       (\<exists>d pc. (symbol, d) \<in> set data \<and> price_changes d = Some pc \<and>
                defined_value pc period = Some change)" by (rule m)
    show "distinct (map fst data) \<longrightarrow> distinct (map fst ?ps)" by (rule di)
    show "sorted_wrt (\<lambda>a b. fl_le (snd b) (snd a)) ?ps" by (rule so)
    show "?ps \<noteq> [] \<longrightarrow>
       report_best ?ps = Some (hd ?ps) \<and>
       report_worst ?ps = Some (last ?ps) \<and>
       (\<forall>e \<in> set ?ps. fl_le (snd e) (snd (hd ?ps)) \<and> fl_le (snd (last ?ps)) (snd e))"
      by (rule ends)
  qed
qed

text \<open>
  The scenario: A at +10.00, B at -5.00 and C without a 30-day change give the list
  [A, B], best A, worst B.
\<close>

theorem best_performers_ranking_witness:
  "get_best_performers
     [(''A'', rec_30d (Some (Fin 10))), (''B'', rec_30d (Some (Fin (- 5)))),
      (''C'', rec_30d None)] ''30_day_change_%''
     = Returns [(''A'', Fin 10), (''B'', Fin (- 5))] \<and>
   report_best [(''A'', Fin 10), (''B'', Fin (- 5))] = Some (''A'', Fin 10) \<and>
   report_worst [(''A'', Fin 10), (''B'', Fin (- 5))] = Some (''B'', Fin (- 5))"
proof -
  let ?data = "[(''A'', rec_30d (Some (Fin 10))), (''B'', rec_30d (Some (Fin (- 5)))),
                (''C'', rec_30d None)]"
  let ?l = "[(''A'', Fin 10), (''B'', Fin (- 5))] :: (string \<times> fl) list"
  have ex: "get_best_performers ?data ''30_day_change_%'' = Returns ?l"
    by code_simp
  have h: "\<forall>item \<in> set ?data. \<forall>pc. price_changes (snd item) = Some pc \<longrightarrow>
             defined_value pc ''30_day_change_%'' \<noteq> Some NaN"
    by (simp add: rec_30d_def defined_value_def)
  from best_performers_ranking [OF h] obtain performers where
    r: "get_best_performers ?data ''30_day_change_%'' = Returns performers" and
    e: "performers \<noteq> [] \<longrightarrow>
          report_best performers = Some (hd performers) \<and>
          report_worst performers = Some (last performers) \<and>
          (\<forall>e \<in> set performers.
             fl_le (snd e) (snd (hd performers)) \<and> fl_le (snd (last performers)) (snd e))"
    by blast
  from r ex have p: "performers = ?l" by simp
  from e have "report_best ?l = Some (''A'', Fin 10) \<and> report_worst ?l = Some (''B'', Fin (- 5))"
    unfolding p by simp
  with ex show ?thesis by simp
qed

section \<open>Trend strength\<close>

lemma contains_self: "contains sub sub"
  by (cases sub) simp_all

lemma contains_append: "contains sub (pre @ sub)"
  by (induction pre) (simp_all add: contains_self)

lemma suffix_contains: "suffix sub s \<Longrightarrow> contains sub s"
  by (auto simp: suffix_def contains_append)

lemma update_fresh: "k \<notin> fst ` set al \<Longrightarrow> AList.update k v al = al @ [(k, v)]"
  by (induction al) auto

lemma above_below_step_eq:
  "fst item \<notin> fst ` set acc \<Longrightarrow>
   above_below_step price item acc
     = acc @ (if participates item then [(fst item, is_above price item)] else [])"
  by (cases item)
     (auto simp: above_below_step_def participates_def is_above_def update_fresh
           split: option.splits)

lemma above_below_fold:
  "distinct (map fst acc @ map fst ma) \<Longrightarrow>
   fold (above_below_step price) ma acc
     = acc @ map (\<lambda>item. (fst item, is_above price item)) (filter participates ma)"
proof (induction ma arbitrary: acc)
  case Nil
  show ?case by simp
next
  case (Cons item ma)
  let ?new = "if participates item then [(fst item, is_above price item)] else []"
  from Cons.prems have fresh: "fst item \<notin> fst ` set acc"
    by (simp add: image_iff)
  then have step: "above_below_step price item acc = acc @ ?new"
    by (rule above_below_step_eq)
  from Cons.prems have d: "distinct (map fst (acc @ ?new) @ map fst ma)"
    by (cases "participates item") simp_all
  have "fold (above_below_step price) (item # ma) acc
          = fold (above_below_step price) ma (acc @ ?new)"
    by (simp only: fold_simps step)
  also have "\<dots> = (acc @ ?new) @ map (\<lambda>item. (fst item, is_above price item))
                                      (filter participates ma)"
    using d by (rule Cons.IH)
  also have "\<dots> = acc @ map (\<lambda>item. (fst item, is_above price item))
                            (filter participates (item # ma))"
    by simp
  finally show ?case .
qed

lemma count_true:
  "length (filter (\<lambda>v. v) (map snd (map (\<lambda>item. (fst item, g item)) xs)))
     = length (filter g xs)"
  by (induction xs) simp_all

lemma trend_of_counts:
  assumes "distinct (map fst ma)"
  shows "total_mas (trend_of price ma) = length (filter participates ma)"
    and "above_mas (trend_of price ma)
           = length (filter (\<lambda>item. participates item \<and> is_above price item) ma)"
proof -
  have ab: "fold (above_below_step price) ma []
        = map (\<lambda>item. (fst item, is_above price item)) (filter participates ma)"
    using above_below_fold [of "[]" ma price] assms by simp
  show "total_mas (trend_of price ma) = length (filter participates ma)"
    by (simp add: trend_of_def Let_def ab)
  have "above_mas (trend_of price ma)
          = length (filter (\<lambda>v. v) (map snd (fold (above_below_step price) ma [])))"
    by (simp add: trend_of_def Let_def)
  also have "\<dots> = length (filter (is_above price) (filter participates ma))"
    unfolding ab by (rule count_true)
  also have "\<dots> = length (filter (\<lambda>item. participates item \<and> is_above price item) ma)"
    by (simp only: filter_filter)
  finally show "above_mas (trend_of price ma)
           = length (filter (\<lambda>item. participates item \<and> is_above price item) ma)" .
qed

lemma trend_of_score:
  "strength_score (trend_of price ma)
     = py_round (trend_strength (above_mas (trend_of price ma)) (total_mas (trend_of price ma))) 1"
  by (simp add: trend_of_def Let_def)

lemma trend_of_label:
  "trend (trend_of price ma)
     = trend_label (trend_strength (above_mas (trend_of price ma)) (total_mas (trend_of price ma)))"
  by (simp add: trend_of_def Let_def)

lemma length_filter_mono:
  "(\<And>x. x \<in> set xs \<Longrightarrow> P x \<Longrightarrow> Q x) \<Longrightarrow> length (filter P xs) \<le> length (filter Q xs)"
  by (induction xs) auto

lemma times_100_near:
  assumes x0: "0 \<le> x" and x1: "x \<le> 1"
  shows "\<bar>f64 (f64 x * 100) - 100 * x\<bar> \<le> 1 / 2 ^ 45"
proof -
  let ?u = "1 / 9007199254740992 :: rat"
  have "\<bar>x - x\<bar> \<le> 0 * \<bar>x\<bar>" by simp
  from f64_rel [OF this] have "\<bar>f64 x - x\<bar> \<le> ?u * \<bar>x\<bar>" by simp
  then have "\<bar>f64 x - x\<bar> * 100 \<le> ?u * \<bar>x\<bar> * 100" by (rule mult_right_mono) simp
  moreover have "f64 x * 100 - x * 100 = (f64 x - x) * 100"
    by (rule left_diff_distrib [symmetric])
  then have "\<bar>f64 x * 100 - x * 100\<bar> = \<bar>f64 x - x\<bar> * 100"
    by (simp only: abs_mult)
  moreover have "\<bar>x * 100\<bar> = \<bar>x\<bar> * 100" by (simp only: abs_mult)
  ultimately have "\<bar>f64 x * 100 - x * 100\<bar> \<le> ?u * \<bar>x * 100\<bar>"
    by (simp only: mult.assoc)
  from f64_rel [OF this]
  have "\<bar>f64 (f64 x * 100) - x * 100\<bar> \<le> (?u + (1 + ?u) / 9007199254740992) * \<bar>x * 100\<bar>" .
  also have "\<dots> \<le> (?u + (1 + ?u) / 9007199254740992) * 100"
  proof (rule mult_left_mono)
    from x0 x1 show "\<bar>x * 100\<bar> \<le> 100" by simp
    show "0 \<le> ?u + (1 + ?u) / 9007199254740992" by simp
  qed
  also have "\<dots> \<le> 1 / 2 ^ 45" by simp
  finally have "\<bar>f64 (f64 x * 100) - x * 100\<bar> \<le> 1 / 2 ^ 45" .
  then show ?thesis by (simp only: mult.commute [of x 100])
qed

lemma trend_strength_near:
  assumes "a \<le> t"
  shows "\<bar>trend_strength a t - 100 * of_nat a / of_nat t\<bar> \<le> 1 / 2 ^ 45"
proof (cases "t = 0")
  case True
  then show ?thesis by (simp add: trend_strength_def)
next
  case False
  with assms have "0 \<le> (of_nat a / of_nat t :: rat)" and "(of_nat a / of_nat t :: rat) \<le> 1"
    by simp_all
  then have "\<bar>f64 (f64 (of_nat a / of_nat t) * 100) - 100 * (of_nat a / of_nat t)\<bar> \<le> 1 / 2 ^ 45"
    by (rule times_100_near)
  with False show ?thesis by (simp add: trend_strength_def)
qed

lemma py_round_1_spec:
  "\<exists>k::int. py_round x 1 = of_int k / 10 \<and> \<bar>of_int k / 10 - x\<bar> \<le> 1 / 20 \<and>
             (\<bar>of_int k / 10 - x\<bar> = 1 / 20 \<longrightarrow> even k)"
proof -
  let ?k = "round_half_even (x * 10)"
  have v: "py_round x 1 = of_int ?k / 10" by (simp add: py_round_def)
  have n: "\<bar>of_int ?k / 10 - x\<bar> \<le> 1 / 20"
    using py_round_near [of x 1] unfolding v by simp
  have e: "\<bar>of_int ?k / 10 - x\<bar> = 1 / 20 \<longrightarrow> even ?k"
  proof
    assume "\<bar>of_int ?k / 10 - x\<bar> = 1 / 20"
    moreover have "of_int ?k / 10 - x = (of_int ?k - x * 10) / 10" by (simp add: diff_divide_distrib)
    ultimately have "\<bar>of_int ?k - x * 10\<bar> = 1 / 2" by (simp add: abs_divide)
    then show "even ?k" by (rule rhe_tie_even)
  qed
  from v n e show ?thesis by blast
qed

text \<open>
  C4, as stated, fails: with one of three defined averages below the price the reported
  \<^verbatim>\<open>strength_score\<close> is 33.3, not 100 * 1 / 3.
\<close>

theorem trend_strength_counterexample:
  "analyze_trend_strength [(''AAPL'', rec_3_of_5)] ''AAPL''
     = Some \<lparr>trend = ''Moderately Bearish'', strength_score = 333 / 10,
             above_mas = 1, total_mas = 3\<rparr> \<and>
   (333 / 10 :: rat) \<noteq> 100 * 1 / 3"
proof -
  let ?ma = "[(''15d_MA'', Some (Fin 5)), (''30d_MA'', Some (Fin 20)),
              (''50d_MA'', Some (Fin 20)), (''100d_MA'', None), (''200d_MA'', None)]"
  have ab: "fold (above_below_step (Fin 10)) ?ma []
              = [(''15d_MA'', True), (''30d_MA'', False), (''50d_MA'', False)]"
    by code_simp
  have a: "f64 (1 / 3) = 6004799503160661 / 18014398509481984"
    by code_simp
  have b: "f64 (6004799503160661 / 18014398509481984 * 100) = 2345624805922133 / 70368744177664"
    by code_simp
  have "trend_strength 1 3 = f64 (f64 (1 / 3) * 100)"
    by (simp add: trend_strength_def)
  also have "\<dots> = f64 (6004799503160661 / 18014398509481984 * 100)"
    by (simp only: a)
  also have "\<dots> = 2345624805922133 / 70368744177664"
    by (rule b)
  finally have s: "trend_strength 1 3 = 2345624805922133 / 70368744177664" .
  have l: "trend_label (2345624805922133 / 70368744177664) = ''Moderately Bearish''"
    by code_simp
  have r: "py_round (2345624805922133 / 70368744177664) 1 = 333 / 10"
    by code_simp
  have "trend_of (Fin 10) ?ma
          = \<lparr>trend = trend_label (trend_strength 1 3),
             strength_score = py_round (trend_strength 1 3) 1, above_mas = 1, total_mas = 3\<rparr>"
    unfolding trend_of_def ab Let_def by (simp add: numeral_3_eq_3)
  then have "trend_of (Fin 10) ?ma
          = \<lparr>trend = ''Moderately Bearish'', strength_score = 333 / 10,
             above_mas = 1, total_mas = 3\<rparr>"
    by (simp only: s l r)
  then show ?thesis
    by (simp add: analyze_trend_strength_def rec_3_of_5_def)
qed

text \<open>
  C4, amended. For a ticker with a price and a \<^verbatim>\<open>moving_averages\<close> dictionary all
  of whose entries are named \<^verbatim>\<open>...d_MA\<close> and none of whose values is 0:
  \<^verbatim>\<open>total_mas\<close> counts the entries with a defined value and \<^verbatim>\<open>above_mas\<close> those
  whose value is strictly less than the price. With s the float value of
  above / total * 100 (0 when total is 0), which is within 2^-45 of 100 * above / total,
  \<^verbatim>\<open>strength_score\<close> is s rounded to one decimal (the nearest multiple of 0.1, a
  tie going to the even one), and the label is fixed by the inclusive lower bounds 80,
  60, 40, 20 on the unrounded s; with no defined value the score is 0 and the label
  Strong Bearish.
\<close>

theorem trend_strength_rounded:
  assumes "map_of data symbol = Some stock"
    and "current_stats stock = Some price"
    and "moving_averages stock = Some ma"
    and "distinct (map fst ma)"
    and "\<forall>item \<in> set ma. suffix ''d_MA'' (fst item) \<and> snd item \<noteq> Some (Fin 0)"
  shows "\<exists>r s. analyze_trend_strength data symbol = Some r \<and>
     total_mas r = length (filter (\<lambda>item. snd item \<noteq> None) ma) \<and>
     above_mas r = length (filter (is_above price) ma) \<and>
     s = (if total_mas r = 0 then 0
          else f64 (f64 (of_nat (above_mas r) / of_nat (total_mas r)) * 100)) \<and>
     \<bar>s - 100 * of_nat (above_mas r) / of_nat (total_mas r)\<bar> \<le> 1 / 2 ^ 45 \<and>
     (\<exists>k::int. strength_score r = of_int k / 10 \<and> \<bar>of_int k / 10 - s\<bar> \<le> 1 / 20 \<and>
                (\<bar>of_int k / 10 - s\<bar> = 1 / 20 \<longrightarrow> even k)) \<and>
     trend r = (if 80 \<le> s then ''Strong Bullish''
                else if 60 \<le> s then ''Moderately Bullish''
                else if 40 \<le> s then ''Neutral''
                else if 20 \<le> s then ''Moderately Bearish''
                else ''Strong Bearish'') \<and>
     (total_mas r = 0 \<longrightarrow> strength_score r = 0 \<and> trend r = ''Strong Bearish'')"
proof -
  let ?r = "trend_of price ma"
  let ?s = "trend_strength (above_mas ?r) (total_mas ?r)"
  have part: "\<And>item. item \<in> set ma \<Longrightarrow> participates item = (snd item \<noteq> None)"
  proof -
    fix item
    assume "item \<in> set ma"
    with assms(5) have "suffix ''d_MA'' (fst item)" and z: "snd item \<noteq> Some (Fin 0)" by simp_all
    then have "contains ''d_MA'' (fst item)" by (simp only: suffix_contains)
    with z show "participates item = (snd item \<noteq> None)"
      by (cases item) (simp add: participates_def)
  qed
  have above: "\<And>item. item \<in> set ma \<Longrightarrow>
                 (participates item \<and> is_above price item) = is_above price item"
  proof -
    fix item
    assume "item \<in> set ma"
    then have "participates item = (snd item \<noteq> None)" by (rule part)
    then show "(participates item \<and> is_above price item) = is_above price item"
      by (auto simp: is_above_def)
  qed
  have r: "analyze_trend_strength data symbol = Some ?r"
    using assms(1-3) by (simp add: analyze_trend_strength_def)
  have "total_mas ?r = length (filter participates ma)"
    using assms(4) by (rule trend_of_counts(1))
  also have "filter participates ma = filter (\<lambda>item. snd item \<noteq> None) ma"
    by (rule filter_cong [OF refl]) (rule part)
  finally have t: "total_mas ?r = length (filter (\<lambda>item. snd item \<noteq> None) ma)" .
  have "above_mas ?r = length (filter (\<lambda>item. participates item \<and> is_above price item) ma)"
    using assms(4) by (rule trend_of_counts(2))
  also have "filter (\<lambda>item. participates item \<and> is_above price item) ma
               = filter (is_above price) ma"
    by (rule filter_cong [OF refl]) (rule above)
  finally have a: "above_mas ?r = length (filter (is_above price) ma)" .
  have le: "above_mas ?r \<le> total_mas ?r"
    unfolding a t by (rule length_filter_mono) (simp add: is_above_def split: option.splits)
  have s: "?s = (if total_mas ?r = 0 then 0
                 else f64 (f64 (of_nat (above_mas ?r) / of_nat (total_mas ?r)) * 100))"
    by (simp add: trend_strength_def)
  have near: "\<bar>?s - 100 * of_nat (above_mas ?r) / of_nat (total_mas ?r)\<bar> \<le> 1 / 2 ^ 45"
    using le by (rule trend_strength_near)
  have sc: "strength_score ?r = py_round ?s 1" by (rule trend_of_score)
  have k: "\<exists>k::int. strength_score ?r = of_int k / 10 \<and> \<bar>of_int k / 10 - ?s\<bar> \<le> 1 / 20 \<and>
                (\<bar>of_int k / 10 - ?s\<bar> = 1 / 20 \<longrightarrow> even k)"
    unfolding sc by (rule py_round_1_spec)
  have l: "trend ?r = (if 80 \<le> ?s then ''Strong Bullish''
                else if 60 \<le> ?s then ''Moderately Bullish''
                else if 40 \<le> ?s then ''Neutral''
                else if 20 \<le> ?s then ''Moderately Bearish''
                else ''Strong Bearish'')"
    by (simp only: trend_of_label trend_label_def)
  have z: "total_mas ?r = 0 \<longrightarrow> strength_score ?r = 0 \<and> trend ?r = ''Strong Bearish''"
  proof
    assume "total_mas ?r = 0"
    then have "?s = 0" by (simp add: trend_strength_def)
    then show "strength_score ?r = 0 \<and> trend ?r = ''Strong Bearish''"
      by (simp add: sc l py_round_0)
  qed
  show ?thesis
    by (rule exI [of _ ?r], rule exI [of _ ?s], intro conjI) (rule r t a s near k l z)+
qed

text \<open>
  The record with three of five averages defined, one of them below the price: the counts
  are 1 of 3, the label is Moderately Bearish and the score is 33.3.
\<close>

theorem trend_strength_rounded_witness:
  "\<exists>r. analyze_trend_strength [(''AAPL'', rec_3_of_5)] ''AAPL'' = Some r \<and>
       total_mas r = 3 \<and> above_mas r = 1 \<and> strength_score r = 333 / 10 \<and>
       trend r = ''Moderately Bearish''"
proof -
  let ?ma = "[(''15d_MA'', Some (Fin 5)), (''30d_MA'', Some (Fin 20)),
              (''50d_MA'', Some (Fin 20)), (''100d_MA'', None), (''200d_MA'', None)]"
  have h1: "map_of [(''AAPL'', rec_3_of_5)] ''AAPL'' = Some rec_3_of_5" by simp
  have h2: "current_stats rec_3_of_5 = Some (Fin 10)" by (simp add: rec_3_of_5_def)
  have h3: "moving_averages rec_3_of_5 = Some ?ma" by (simp add: rec_3_of_5_def)
  have h4: "distinct (map fst ?ma)" by simp
  have h5: "\<forall>item \<in> set ?ma. suffix ''d_MA'' (fst item) \<and> snd item \<noteq> Some (Fin 0)"
    by (simp add: suffix_def)
  have c: "length (filter (\<lambda>item. snd item \<noteq> None) ?ma) = 3" by simp
  have a: "length (filter (is_above (Fin 10)) ?ma) = 1" by (simp add: is_above_def)
  from trend_strength_rounded [OF h1 h2 h3 h4 h5] obtain r and s :: rat and k :: int where
    r: "analyze_trend_strength [(''AAPL'', rec_3_of_5)] ''AAPL'' = Some r" and
    t: "total_mas r = length (filter (\<lambda>item. snd item \<noteq> None) ?ma)" and
    ab: "above_mas r = length (filter (is_above (Fin 10)) ?ma)" and
    near: "\<bar>s - 100 * of_nat (above_mas r) / of_nat (total_mas r)\<bar> \<le> 1 / 2 ^ 45" and
    sc: "strength_score r = of_int k / 10" and
    kn: "\<bar>of_int k / 10 - s\<bar> \<le> 1 / 20" and
    tr: "trend r = (if 80 \<le> s then ''Strong Bullish''
                else if 60 \<le> s then ''Moderately Bullish''
                else if 40 \<le> s then ''Neutral''
                else if 20 \<le> s then ''Moderately Bearish''
                else ''Strong Bearish'')"
    by blast
  from t have t3: "total_mas r = 3" by (simp only: c)
  from ab have a1: "above_mas r = 1" by (simp only: a)
  from near have n3: "\<bar>s - 100 / 3\<bar> \<le> 1 / 2 ^ 45" by (simp add: t3 a1)
  moreover have "(1::rat) / 2 ^ 45 \<le> 1 / 1000" by simp
  ultimately have n1: "\<bar>s - 100 / 3\<bar> \<le> 1 / 1000" by (rule order_trans)
  then have lo: "20 \<le> s" and hi: "s < 40" by linarith+
  from tr lo hi have tr3: "trend r = ''Moderately Bearish''" by simp
  from n1 kn have "332 < (of_int k :: rat)" and "(of_int k :: rat) < 334" by linarith+
  then have "332 < k" and "k < 334" by simp_all
  then have "k = 333" by simp
  with sc have sc3: "strength_score r = 333 / 10" by simp
  show ?thesis
    by (rule exI [of _ r], intro conjI) (rule r t3 a1 sc3 tr3)+
qed

section \<open>Moving averages and their deviation\<close>



lemma fold_adv_ma_step_MA_diff:
  "fold (adv_ma_step closes) periods av (MA_diff p)
     = (if p \<in> set periods
        then Some (if p \<le> length closes then Some (ma_diff closes p) else None)
        else av (MA_diff p))"
  by (induction periods arbitrary: av) (simp_all add: adv_ma_step_def)

lemma adv_MA_diff_defined:
  assumes "1 \<le> period" and "period \<le> length closes" and "period \<in> set periods"
  shows "adv_calculate_moving_averages closes periods (MA_diff period)
           = Some (Some (ma_diff closes period))"
proof -
  from assms(1,2) have "closes \<noteq> []" by auto
  with assms(2,3) show ?thesis
    by (simp add: adv_calculate_moving_averages_def fold_adv_ma_step_MA_diff)
qed

lemma ma_diff_zero:
  assumes "rolling_mean_last period closes = Fin 0"
  shows "ma_diff closes period
           = (if last closes = 0 then NaN else if 0 < last closes then PInf else NInf)"
  by (simp add: ma_diff_def assms fl_sub_def)


text \<open>
  C8, as stated, fails: for fifteen closes of 0 the 15-bar average is 0 and the deviation
  entry is present and holds NaN; it is not \<^verbatim>\<open>None\<close>.
\<close>

theorem ma_diff_zero_counterexample:
  "rolling_mean_last 15 zero_series = Fin 0 \<and>
   adv_calculate_moving_averages zero_series ma_periods (MA_diff 15) = Some (Some NaN)"
  by code_simp

text \<open>
  C8, amended. For every series with at least \<open>period\<close> bars whose \<open>period\<close>-bar
  average is 0, no error is raised and the deviation entry is present: it is NaN when the
  latest close is 0, and plus or minus infinity when the latest close is positive or
  negative.
\<close>

theorem ma_diff_zero_not_absent:
  assumes "1 \<le> period" and "period \<le> length closes" and "period \<in> set periods"
    and "rolling_mean_last period closes = Fin 0"
  shows "adv_calculate_moving_averages closes periods (MA_diff period)
           = Some (Some (if last closes = 0 then NaN
                         else if 0 < last closes then PInf else NInf))"
  using adv_MA_diff_defined [OF assms(1-3)] ma_diff_zero [OF assms(4)] by simp

theorem ma_diff_zero_not_absent_witness:
  "adv_calculate_moving_averages [0, 0] [2] (MA_diff 2) = Some (Some NaN)"
proof -
  have "rolling_mean_last 2 [0, 0] = Fin 0" by (simp add: rolling_mean_last_def)
  from ma_diff_zero_not_absent [of 2 "[0, 0]" "[2]", OF _ _ _ this]
  show ?thesis by simp
qed







section \<open>Price changes\<close>

text \<open>
  C1. The loop tests \<^verbatim>\<open>len(df) >= days\<close> and reads \<^verbatim>\<open>iloc[-days]\<close>, the close
  \<open>days - 1\<close> positions before the last bar. On the closes 100, 110 the 1-day change is
  therefore computed against the latest close itself and is 0.0, where the change from
  the bar before is 10.0; and on fifteen closes the 15-day change is present, computed
  against the first of them.
\<close>

theorem price_change_off_by_one:
  "pct_change [100, 110] 1 = Fin 0 \<and>
   map_option (\<lambda>pc. pc 1) (adv_price_changes [100, 110]) = Some (Some (Fin 0)) \<and>
   py_round ((110 - 100) / 100 * 100) 2 = 10 \<and>
   length (replicate 14 100 @ [110 :: rat]) = 15 \<and>
   change_15d (replicate 14 100 @ [110]) = Some (Fin 10)"
  by code_simp

section \<open>Relative strength index\<close>












section \<open>Windows\<close>




end
